theory Spec2Isabelle
  imports Main "HOL-Library.Word" "HOL-Library.Sublist"
begin

section \<open>JavaScript strings\<close>

text \<open>
  A JavaScript string is a sequence of UTF-16 code units; \<open>length\<close>, \<open>slice\<close>,
  \<open>trim\<close>, \<open>split\<close> and a regular expression without the \<open>u\<close> flag all work on
  code units. The empty string is the only falsy string.
\<close>

type_synonym unit16 = "16 word"
type_synonym jsstring = "unit16 list"

definition js :: "string \<Rightarrow> jsstring" where
  "js s = map of_char s"

definition nl :: unit16 where
  "nl = 0x0A"

definition sp :: unit16 where
  "sp = 0x20"

text \<open>
  The code units removed by \<open>String.prototype.trim\<close> and matched by \<open>\s\<close>: WhiteSpace
  and LineTerminator of ECMAScript (TAB, LF, VT, FF, CR, SP, NBSP, the space separators
  of Unicode, LS, PS and the byte order mark).
\<close>

definition isWhiteSpace :: "unit16 \<Rightarrow> bool" where
  "isWhiteSpace c \<longleftrightarrow>
     c \<in> set [0x09, 0x0A, 0x0B, 0x0C, 0x0D, 0x20, 0xA0, 0x1680,
              0x2000, 0x2001, 0x2002, 0x2003, 0x2004, 0x2005, 0x2006, 0x2007,
              0x2008, 0x2009, 0x200A, 0x2028, 0x2029, 0x202F, 0x205F, 0x3000, 0xFEFF]"

definition trim :: "jsstring \<Rightarrow> jsstring" where
  "trim s = rev (dropWhile isWhiteSpace (rev (dropWhile isWhiteSpace s)))"

text \<open>\<open>s.split('\n')\<close>: the pieces between line feeds; the empty string gives one empty piece.\<close>

fun split_nl :: "jsstring \<Rightarrow> jsstring list" where
  "split_nl [] = [[]]"
| "split_nl (c # cs) =
     (if c = nl then [] # split_nl cs
      else (case split_nl cs of [] \<Rightarrow> [[c]] | piece # pieces \<Rightarrow> (c # piece) # pieces))"

text \<open>\<open>pieces.join(sep)\<close>.\<close>

fun join :: "jsstring \<Rightarrow> jsstring list \<Rightarrow> jsstring" where
  "join sep [] = []"
| "join sep [x] = x"
| "join sep (x # y # ys) = x @ sep @ join sep (y # ys)"

text \<open>\<open>s.replace(/\s+/g, ' ')\<close>: every maximal run of white space becomes one space.\<close>

function collapse_ws :: "jsstring \<Rightarrow> jsstring" where
  "collapse_ws [] = []"
| "collapse_ws (c # cs) =
     (if isWhiteSpace c then sp # collapse_ws (dropWhile isWhiteSpace cs)
      else c # collapse_ws cs)"
  by pat_completeness auto
termination
  by (relation "measure length") (auto simp: less_Suc_eq_le length_dropWhile_le)

text \<open>
  \<open>s.replace(/\n\s*\n/g, '\n\n')\<close>. After a line feed the greedy \<open>\s*\<close> takes the whole
  white-space run and backtracks to the last line feed in it; \<open>blank_run\<close> is the number of
  code units that \<open>\s*\n\<close> then consumes, or \<open>None\<close> when the run has no line feed and
  there is no match at this position.
\<close>

definition blank_run :: "jsstring \<Rightarrow> nat option" where
  "blank_run cs =
     (let w = takeWhile isWhiteSpace cs
      in if nl \<in> set w then Some (length w - length (takeWhile (\<lambda>c. c \<noteq> nl) (rev w)))
         else None)"

function collapse_blank :: "jsstring \<Rightarrow> jsstring" where
  "collapse_blank [] = []"
| "collapse_blank (c # cs) =
     (if c = nl then
        (case blank_run cs of
           Some k \<Rightarrow> nl # nl # collapse_blank (drop k cs)
         | None \<Rightarrow> c # collapse_blank cs)
      else c # collapse_blank cs)"
  by pat_completeness auto
termination
  by (relation "measure length") auto

section \<open>The outside world\<close>

text \<open>
  The pipeline talks to a completion service and to the web. Both are inputs of the model:
  an answer may depend on the arguments of the call and on when it is made, so every
  outbound call reads the environment at a clock, the number of outbound calls made before
  it, and the clock is passed on.
\<close>

record message =
  role :: jsstring
  content :: jsstring

text \<open>
  \<open>Rejected\<close>: the call throws, or the reply has no first choice to read.
  \<open>Completion c\<close>: \<open>response.choices[0].message.content\<close> is \<open>c\<close>, \<open>None\<close> for \<open>null\<close>.
\<close>

datatype completion = Rejected | Completion "jsstring option"

text \<open>
  What cheerio reports about one \<open>div.g\<close> container of a results page: the text of its
  \<open>h3\<close> elements, the \<open>href\<close> attribute of its first \<open>a\<close> element (\<open>None\<close> for
  \<open>undefined\<close>) and the text of its \<open>div.VwiC3b\<close> elements.
\<close>

record container =
  h3_text :: jsstring
  first_a_href :: "jsstring option"
  snippet_text :: jsstring

text \<open>
  A loaded document, as far as the program queries it: the \<open>div.g\<close> containers in document
  order; for a selector, the texts of the elements it matches once the unwanted elements
  (script, style, nav, header, footer, aside, iframe, img) are removed; and the texts of
  the \<open>p\<close> elements that remain.
\<close>

record document =
  div_g :: "container list"
  matched :: "string \<Rightarrow> jsstring list"
  p_texts :: "jsstring list"

text \<open>\<open>FetchRejected\<close>: \<open>fetch\<close> or \<open>response.text()\<close> throws. \<open>Response ok d\<close>: a reply.\<close>

datatype fetched = FetchRejected | Response bool document

text \<open>\<open>encodeURIComponent\<close> throws a URIError on a lone surrogate: \<open>None\<close>.\<close>

record env =
  complete :: "nat \<Rightarrow> message list \<Rightarrow> completion"
  fetch :: "nat \<Rightarrow> jsstring \<Rightarrow> fetched"
  encodeURIComponent :: "jsstring \<Rightarrow> jsstring option"

text \<open>
  The \<open>query\<close> read from the request body is untyped: it is \<open>undefined\<close> when the body has
  no such field. Values that are neither a string nor \<open>undefined\<close> are left out.
\<close>

datatype jsval = Undefined | Str jsstring

fun ToString :: "jsval \<Rightarrow> jsstring" where
  "ToString Undefined = js ''undefined''"
| "ToString (Str s) = s"

section \<open>Query expansion\<close>

definition expansion_messages :: "jsval \<Rightarrow> message list" where
  "expansion_messages question =
     [\<lparr>role = js ''system'',
       content = js ''You are a search expert. Generate 3 specific search queries that would help answer the user's question. Format each query on a new line.''\<rparr>,
      \<lparr>role = js ''user'',
       content = js ''Generate specific search queries to answer this question: '' @ ToString question\<rparr>]"

definition generateSearchQueries :: "env \<Rightarrow> nat \<Rightarrow> jsval \<Rightarrow> jsval list \<times> nat" where
  "generateSearchQueries e t question =
     (case complete e t (expansion_messages question) of
        Rejected \<Rightarrow> ([question], Suc t)
      | Completion None \<Rightarrow> ([question], Suc t)
      | Completion (Some text) \<Rightarrow>
          (if text \<noteq> [] then (map Str (filter (\<lambda>q. trim q \<noteq> []) (split_nl text)), Suc t)
           else ([question], Suc t)))"

section \<open>Search results\<close>

record SearchResult =
  title :: jsstring
  url :: jsstring
  snippet :: jsstring

text \<open>
  The body of the \<open>each\<close> callback: one container, pushed when the guard holds. The guard
  reads the strings as cheerio returns them; they are trimmed when the entry is built.
  Nothing in the body throws on these values, so its \<open>catch\<close> has no branch here.
\<close>

definition push_result :: "SearchResult list \<Rightarrow> container \<Rightarrow> SearchResult list" where
  "push_result results element =
     (case first_a_href element of
        None \<Rightarrow> results
      | Some href \<Rightarrow>
          (if href \<noteq> [] \<and> prefix (js ''http'') href
              \<and> h3_text element \<noteq> [] \<and> snippet_text element \<noteq> []
           then results @ [\<lparr>title = trim (h3_text element), url = trim href,
                            snippet = trim (snippet_text element)\<rparr>]
           else results))"

definition searchGoogle :: "env \<Rightarrow> nat \<Rightarrow> jsval \<Rightarrow> SearchResult list \<times> nat" where
  "searchGoogle e t searchQuery =
     (case encodeURIComponent e (ToString searchQuery) of
        None \<Rightarrow> ([], t)
      | Some encodedQuery \<Rightarrow>
          (case fetch e t (js ''https://www.google.com/search?q='' @ encodedQuery @ js ''&num=16'') of
             FetchRejected \<Rightarrow> ([], Suc t)
           | Response ok d \<Rightarrow>
               (if \<not> ok then ([], Suc t)
                else (take 8 (foldl push_result [] (div_g d)), Suc t))))"

section \<open>Content extraction\<close>

definition contentSelectors :: "string list" where
  "contentSelectors =
     [''article'', ''main'', ''.content'', ''.post-content'', ''.article-content'',
      ''#content'', ''#main-content'']"

text \<open>
  The loop over the selectors: the first selector that matches any element sets the
  content to the trimmed text of the matched elements and ends the loop.
\<close>

fun try_selectors :: "document \<Rightarrow> string list \<Rightarrow> jsstring" where
  "try_selectors d [] = []"
| "try_selectors d (selector # rest) =
     (let element = matched d selector
      in if length element > 0 then trim (concat element) else try_selectors d rest)"

definition paragraphs :: "document \<Rightarrow> jsstring list" where
  "paragraphs d = filter (\<lambda>text. length text > 50) (map trim (p_texts d))"

definition page_content :: "document \<Rightarrow> jsstring" where
  "page_content d =
     (let found = try_selectors d contentSelectors
      in if found = [] then join [nl, nl] (paragraphs d) else found)"

definition clean_up :: "jsstring \<Rightarrow> jsstring" where
  "clean_up text = take 4000 (trim (collapse_blank (collapse_ws text)))"

definition extractContent :: "env \<Rightarrow> nat \<Rightarrow> jsstring \<Rightarrow> jsstring \<times> nat" where
  "extractContent e t address =
     (case fetch e t address of
        FetchRejected \<Rightarrow> ([], Suc t)
      | Response ok d \<Rightarrow>
          (if \<not> ok then ([], Suc t) else (clean_up (page_content d), Suc t)))"

section \<open>Synthesis\<close>

text \<open>
  The loop over the sources, with the two arrays it pushes to. \<open>extractContent\<close> handles
  its own failures and the delay only passes time, so the \<open>catch\<close> inside the loop has no
  branch here.
\<close>

fun process_sources ::
  "env \<Rightarrow> nat \<Rightarrow> SearchResult list \<Rightarrow> jsstring list \<Rightarrow> jsstring list
     \<Rightarrow> (jsstring list \<times> jsstring list) \<times> nat" where
  "process_sources e t [] sourceTexts cited = ((sourceTexts, cited), t)"
| "process_sources e t (source # rest) sourceTexts cited =
     (let (text, t') = extractContent e t (url source);
          (sourceTexts', cited') =
             (if text \<noteq> []
              then (sourceTexts @ [js ''Content from '' @ url source @ js '':'' @ [nl] @ text],
                    cited @ [url source])
              else (sourceTexts, cited));
          sourceTexts'' =
             (if snippet source \<noteq> [] then sourceTexts' @ [js ''Snippet: '' @ snippet source]
              else sourceTexts')
      in process_sources e t' rest sourceTexts'' cited')"

definition synthesis_messages :: "jsval \<Rightarrow> jsstring list \<Rightarrow> message list" where
  "synthesis_messages question sourceTexts =
     [\<lparr>role = js ''system'',
       content = js ''You are a research assistant. Synthesize the provided information to answer the user's question. Be specific and cite sources where possible. If information is incomplete or uncertain, acknowledge this.''\<rparr>,
      \<lparr>role = js ''user'',
       content = js ''Question: '' @ ToString question @ [nl, nl] @ js ''Sources:'' @ [nl]
                   @ join [nl, nl] sourceTexts\<rparr>]"

definition synthesizeInformation ::
  "env \<Rightarrow> nat \<Rightarrow> jsval \<Rightarrow> SearchResult list \<Rightarrow> (jsstring \<times> jsstring list) \<times> nat" where
  "synthesizeInformation e t question sources =
     (let ((sourceTexts, cited), t') = process_sources e t sources [] []
      in case complete e t' (synthesis_messages question sourceTexts) of
           Rejected \<Rightarrow> ((js ''Error synthesizing information.'', []), Suc t')
         | Completion None \<Rightarrow> ((js ''No content available'', cited), Suc t')
         | Completion (Some text) \<Rightarrow> ((text, cited), Suc t'))"

section \<open>The endpoint\<close>

record SearchResponse =
  query :: jsval
  answer :: jsstring
  citations :: "jsstring list"
  searchQueriesUsed :: "jsval list"

datatype http_response = Json200 SearchResponse | Json500 jsstring

text \<open>\<open>NextResponse.json\<close> answers with status 200 unless told otherwise.\<close>

fun status :: "http_response \<Rightarrow> nat" where
  "status (Json200 r) = 200"
| "status (Json500 message) = 500"

text \<open>
  The request body: \<open>request.json()\<close> rejects a body that is not JSON; destructuring
  \<open>null\<close> throws; any other JSON value yields its \<open>query\<close> property, \<open>undefined\<close> when
  there is none.
\<close>

datatype request_body = NotJson | JsonNull | JsonValue jsval

datatype exn = SyntaxError | TypeError

fun read_query :: "request_body \<Rightarrow> exn + jsval" where
  "read_query NotJson = Inl SyntaxError"
| "read_query JsonNull = Inl TypeError"
| "read_query (JsonValue q) = Inr q"

text \<open>
  The loop over the expanded queries, appending each result list. The \<open>x-forwarded-for\<close>
  header and the rate-limit key built from it are read and never used.
\<close>

fun search_all ::
  "env \<Rightarrow> nat \<Rightarrow> jsval list \<Rightarrow> SearchResult list \<Rightarrow> SearchResult list \<times> nat" where
  "search_all e t [] allSources = (allSources, t)"
| "search_all e t (searchQuery # rest) allSources =
     (let (results, t') = searchGoogle e t searchQuery
      in search_all e t' rest (allSources @ results))"

definition POST :: "env \<Rightarrow> request_body \<Rightarrow> http_response" where
  "POST e body =
     (case read_query body of
        Inl _ \<Rightarrow> Json500 (js ''Failed to process search'')
      | Inr question \<Rightarrow>
          (let (searchQueries, t1) = generateSearchQueries e 0 question;
               (allSources, t2) = search_all e t1 searchQueries [];
               ((text, cited), t3) = synthesizeInformation e t2 question allSources
           in Json200 \<lparr>query = question, answer = text, citations = cited,
                       searchQueriesUsed = searchQueries\<rparr>))"

section \<open>Predicates of the claims\<close>

text \<open>No two neighbouring code units are both spaces.\<close>

fun no_double_space :: "jsstring \<Rightarrow> bool" where
  "no_double_space (a # b # cs) = (\<not> (a = sp \<and> b = sp) \<and> no_double_space (b # cs))"
| "no_double_space _ = True"

text \<open>
  Two neighbouring lines are both blank (empty once trimmed); applied to the lines of a
  text, it says that the text has more than one consecutive blank line.
\<close>

fun adjacent_blank :: "jsstring list \<Rightarrow> bool" where
  "adjacent_blank (a # b # ls) = ((trim a = [] \<and> trim b = []) \<or> adjacent_blank (b # ls))"
| "adjacent_blank _ = False"

section \<open>Example environments\<close>

text \<open>An environment where every outbound call fails, and variations of it.\<close>

definition silent :: env where
  "silent = \<lparr>complete = (\<lambda>t ms. Rejected), fetch = (\<lambda>t a. FetchRejected),
              encodeURIComponent = Some\<rparr>"

definition results_page :: "container list \<Rightarrow> document" where
  "results_page cs = \<lparr>div_g = cs, matched = (\<lambda>selector. []), p_texts = []\<rparr>"

text \<open>A results page whose only container has a heading of one space.\<close>

definition blank_title_web :: env where
  "blank_title_web =
     silent\<lparr>fetch := (\<lambda>t a. Response True (results_page
       [\<lparr>h3_text = [sp], first_a_href = Some (js ''http://a.example/''),
         snippet_text = js ''Water boils at 100 degrees.''\<rparr>]))\<rparr>"

text \<open>A results page with an acceptable container and one with a relative link.\<close>

definition two_results_web :: env where
  "two_results_web =
     silent\<lparr>fetch := (\<lambda>t a. Response True (results_page
       [\<lparr>h3_text = js ''Boiling point'', first_a_href = Some (js ''http://a.example/ ''),
         snippet_text = js '' Water boils at 100 degrees.''\<rparr>,
        \<lparr>h3_text = js ''An advert'', first_a_href = Some (js ''/relative''),
         snippet_text = js ''Buy a kettle''\<rparr>]))\<rparr>"

text \<open>A page with an empty \<open>article\<close> element, a \<open>main\<close> element with text, and a paragraph.\<close>

definition empty_article_page :: document where
  "empty_article_page =
     \<lparr>div_g = [],
      matched = (\<lambda>selector.
        if selector = ''article'' then [[]]
        else if selector = ''main'' then [js ''Water boils at 100 C at sea level.'']
        else []),
      p_texts = [js ''The kettle was invented long before anyone measured a boiling point.'']\<rparr>"

text \<open>A page whose \<open>main\<close> element has untidy white space.\<close>

definition main_page :: document where
  "main_page =
     \<lparr>div_g = [],
      matched = (\<lambda>selector.
        if selector = ''main''
        then [js ''  Water boils   at 100 C'' @ [nl, nl] @ js '' at sea level. '']
        else []),
      p_texts = [js ''The kettle was invented long before anyone measured a boiling point.'']\<rparr>"

definition main_web :: env where
  "main_web = silent\<lparr>fetch := (\<lambda>t a. Response True main_page)\<rparr>"

text \<open>
  A page whose \<open>article\<close> element has 4001 code units of text: 3999 times \<open>x\<close>, a space
  and \<open>y\<close>.
\<close>

definition long_page :: document where
  "long_page =
     \<lparr>div_g = [],
      matched = (\<lambda>selector.
        if selector = ''article'' then [replicate 3999 0x78 @ [sp, 0x79]] else []),
      p_texts = []\<rparr>"

definition long_web :: env where
  "long_web = silent\<lparr>fetch := (\<lambda>t a. Response True long_page)\<rparr>"

text \<open>Two sources, as \<open>searchGoogle\<close> returns them.\<close>

definition source_a :: SearchResult where
  "source_a = \<lparr>title = js ''Boiling point'', url = js ''http://a.example/'',
               snippet = js ''Water boils at 100 degrees.''\<rparr>"

definition source_b :: SearchResult where
  "source_b = \<lparr>title = js ''Kettles'', url = js ''http://b.example/'',
               snippet = js ''All about kettles.''\<rparr>"

text \<open>A web where only the first source can be fetched, and every completion succeeds.\<close>

definition one_site_web :: env where
  "one_site_web =
     \<lparr>complete = (\<lambda>t ms. Completion (Some (js ''Water boils at 100 C.''))),
      fetch = (\<lambda>t a. if a = js ''http://a.example/'' then Response True main_page
                      else FetchRejected),
      encodeURIComponent = Some\<rparr>"

text \<open>Every page is \<open>main_page\<close>, and every completion has \<open>null\<close> content.\<close>

definition null_web :: env where
  "null_web = main_web\<lparr>complete := (\<lambda>t ms. Completion None)\<rparr>"

text \<open>
  A page that serves both as a results page, with one container, and as a content page.
  The completion service answers the expansion with two queries; both searches surface the
  same source.
\<close>

definition boiling_page :: document where
  "boiling_page =
     main_page\<lparr>div_g :=
       [\<lparr>h3_text = js ''Boiling point'', first_a_href = Some (js ''http://a.example/''),
         snippet_text = js ''Water boils at 100 degrees.''\<rparr>]\<rparr>"

definition boiling_web :: env where
  "boiling_web =
     \<lparr>complete = (\<lambda>t ms.
        if t = 0 then Completion (Some (js ''boiling point of water'' @ [nl] @ js ''water sea level''))
        else Completion (Some (js ''Water boils at 100 C.''))),
      fetch = (\<lambda>t a. Response True boiling_page),
      encodeURIComponent = Some\<rparr>"

text \<open>Every page is \<open>main_page\<close>, and every completion is the empty string.\<close>

definition empty_answer_web :: env where
  "empty_answer_web = main_web\<lparr>complete := (\<lambda>t ms. Completion (Some []))\<rparr>"

text \<open>
  A page that serves as a results page with two containers and as a content page; the
  expansion fails, so the question is the only query, and both sources are cited.
\<close>

definition two_sites_page :: document where
  "two_sites_page =
     main_page\<lparr>div_g :=
       [\<lparr>h3_text = js ''Boiling point'', first_a_href = Some (js ''http://a.example/''),
         snippet_text = js ''Water boils at 100 degrees.''\<rparr>,
        \<lparr>h3_text = js ''Kettles'', first_a_href = Some (js ''http://b.example/''),
         snippet_text = js ''All about kettles.''\<rparr>]\<rparr>"

definition two_sites_web :: env where
  "two_sites_web =
     \<lparr>complete = (\<lambda>t ms.
        if t = 0 then Rejected else Completion (Some (js ''Water boils at 100 C.''))),
      fetch = (\<lambda>t a. Response True two_sites_page),
      encodeURIComponent = Some\<rparr>"

definition boiling_question :: jsval where
  "boiling_question = Str (js ''What is the boiling point of water at sea level?'')"

section \<open>Properties of the string operations\<close>

lemma http_not_ws: "\<forall>c\<in>set (js ''http''). \<not> isWhiteSpace c"
  by (simp add: js_def isWhiteSpace_def)

lemma nl_ws: "isWhiteSpace nl" by (simp add: nl_def isWhiteSpace_def)
lemma sp_ws: "isWhiteSpace sp" by (simp add: sp_def isWhiteSpace_def)
lemma nl_neq_sp: "nl \<noteq> sp" by (simp add: nl_def sp_def)

lemma dropWhile_idem: "dropWhile P (dropWhile P xs) = dropWhile P xs"
  by (induction xs) auto

lemma trim_eq_take_drop:
  "\<exists>i j. trim s = take i (drop j s)"
proof -
  let ?d = "dropWhile isWhiteSpace s"
  have 1: "?d = drop (length (takeWhile isWhiteSpace s)) s"
    by (rule dropWhile_eq_drop)
  have "rev (dropWhile isWhiteSpace (rev ?d)) = rev (drop (length (takeWhile isWhiteSpace (rev ?d))) (rev ?d))"
    by (simp add: dropWhile_eq_drop[symmetric])
  also have "\<dots> = take (length ?d - length (takeWhile isWhiteSpace (rev ?d))) ?d"
    by (simp add: rev_drop)
  finally show ?thesis unfolding trim_def using 1 by metis
qed

lemma trim_no_lead: "dropWhile isWhiteSpace (trim s) = trim s"
proof -
  let ?d = "dropWhile isWhiteSpace s"
  let ?r = "dropWhile isWhiteSpace (rev ?d)"
  show ?thesis
  proof (cases "?r = []")
    case True
    then have "trim s = []" by (simp only: trim_def rev.simps)
    then show ?thesis by simp
  next
    case False
    have "\<exists>k. rev ?r = take k ?d" 
      by (metis dropWhile_eq_drop rev_drop rev_rev_ident)
    then obtain k where k: "rev ?r = take k ?d" by blast
    from False have "rev ?r \<noteq> []" by simp
    with k have ne: "?d \<noteq> []" "k \<noteq> 0" by auto
    then have "\<not> isWhiteSpace (hd ?d)" by (metis hd_dropWhile)
    moreover have "hd (rev ?r) = hd ?d" using k ne by (simp add: hd_take)
    ultimately have "\<not> isWhiteSpace (hd (rev ?r))" by simp
    then have "dropWhile isWhiteSpace (rev ?r) = rev ?r"
      using \<open>rev ?r \<noteq> []\<close> by (cases "rev ?r") auto
    then show ?thesis by (simp add: trim_def)
  qed
qed

lemma trim_no_trail: "dropWhile isWhiteSpace (rev (trim s)) = rev (trim s)"
  by (simp add: trim_def dropWhile_idem)

lemma trim_trim: "trim (trim s) = trim s"
  using trim_no_lead[of s] trim_no_trail[of s] by (simp add: trim_def[of "trim s"])

lemma trim_prefix:
  assumes "prefix p s" "p \<noteq> []" "\<forall>c\<in>set p. \<not> isWhiteSpace c"
  shows "prefix p (trim s)"
proof -
  from assms(1) obtain r where s: "s = p @ r" by (auto simp: prefix_def)
  from assms(2,3) have hdp: "\<not> isWhiteSpace (hd p)" by (cases p) auto
  have lastp: "\<not> isWhiteSpace (hd (rev p))" using assms(2,3) by (simp add: hd_rev)
  have 1: "dropWhile isWhiteSpace s = s" using s hdp assms(2) by (cases p) auto
  have 2: "dropWhile isWhiteSpace (rev p) = rev p" using lastp assms(2) by (cases "rev p") auto
  show ?thesis
    unfolding trim_def 1 using 2 s assms(2)
    by (auto simp: dropWhile_append prefix_def)
qed

lemma trim_empty_iff: "trim s = [] \<longleftrightarrow> (\<forall>c\<in>set s. isWhiteSpace c)"
proof -
  have "trim s = [] \<longleftrightarrow> (\<forall>c\<in>set (dropWhile isWhiteSpace s). isWhiteSpace c)"
    by (simp add: trim_def dropWhile_eq_Nil_conv)
  also have "\<dots> \<longleftrightarrow> (\<forall>c\<in>set s. isWhiteSpace c)"
  proof
    assume a: "\<forall>c\<in>set (dropWhile isWhiteSpace s). isWhiteSpace c"
    show "\<forall>c\<in>set s. isWhiteSpace c"
    proof
      fix c assume "c \<in> set s"
      then have "c \<in> set (takeWhile isWhiteSpace s) \<or> c \<in> set (dropWhile isWhiteSpace s)"
        by (metis Un_iff set_append takeWhile_dropWhile_id)
      then show "isWhiteSpace c" using a by (auto dest: set_takeWhileD)
    qed
  next
    assume "\<forall>c\<in>set s. isWhiteSpace c"
    then show "\<forall>c\<in>set (dropWhile isWhiteSpace s). isWhiteSpace c"
      by (auto dest: set_dropWhileD)
  qed
  finally show ?thesis .
qed

lemma split_nl_not_Nil: "split_nl s \<noteq> []"
  by (induction s) (auto split: list.splits)

lemma split_nl_blank_iff:
  "(\<forall>q\<in>set (split_nl s). trim q = []) \<longleftrightarrow> (\<forall>c\<in>set s. isWhiteSpace c)"
proof (induction s)
  case Nil
  then show ?case by (simp add: trim_def)
next
  case (Cons c cs)
  show ?case
  proof (cases "c = nl")
    case True
    then show ?thesis using Cons by (simp add: nl_ws trim_def)
  next
    case False
    obtain piece pieces where sp: "split_nl cs = piece # pieces"
      using split_nl_not_Nil[of cs] by (cases "split_nl cs") auto
    have "(\<forall>q\<in>set (split_nl (c # cs)). trim q = [])
            \<longleftrightarrow> isWhiteSpace c \<and> (\<forall>q\<in>set (split_nl cs). trim q = [])"
      using False sp by (auto simp: trim_empty_iff)
    then show ?thesis using Cons by simp
  qed
qed

section \<open>Query expansion: the fallback and the case it misses\<close>

lemma generateSearchQueries_clock: "snd (generateSearchQueries e t q) = Suc t"
  by (simp add: generateSearchQueries_def split: completion.splits option.splits)

lemma generateSearchQueries_fallback:
  assumes "complete e t (expansion_messages q) = Rejected
           \<or> complete e t (expansion_messages q) = Completion None
           \<or> complete e t (expansion_messages q) = Completion (Some [])"
  shows "fst (generateSearchQueries e t q) = [q]"
  using assms by (auto simp: generateSearchQueries_def)

lemma generateSearchQueries_empty_iff:
  "fst (generateSearchQueries e t q) = [] \<longleftrightarrow>
     (\<exists>text. complete e t (expansion_messages q) = Completion (Some text)
        \<and> text \<noteq> [] \<and> (\<forall>c\<in>set text. isWhiteSpace c))"
  by (auto simp: generateSearchQueries_def filter_empty_conv split_nl_blank_iff
           split: completion.splits option.splits)

text \<open>
  C2. The claim: the expansion is never empty, and it is the question alone when the
  completion fails or is empty. The fallback holds (\<open>generateSearchQueries_fallback\<close>),
  but a completion that is not empty and holds white space only passes the test
  \<open>if (content)\<close>, every line of it is filtered out, and the expansion is the empty
  sequence. Here the completion is a single line feed.
\<close>

theorem generateSearchQueries_blank_completion:
  "generateSearchQueries
     \<lparr>complete = (\<lambda>t ms. Completion (Some [nl])), fetch = (\<lambda>t a. FetchRejected),
      encodeURIComponent = Some\<rparr>
     0 (Str (js ''What is the boiling point of water at sea level?''))
   = ([], 1)"
  by (simp add: generateSearchQueries_def trim_def nl_ws)

section \<open>Search results: what is accepted and what is returned\<close>

lemma push_result_cases:
  assumes "r \<in> set (push_result acc c)"
  shows "r \<in> set acc \<or>
         (h3_text c \<noteq> [] \<and> snippet_text c \<noteq> [] \<and>
          (\<exists>href. first_a_href c = Some href \<and> href \<noteq> [] \<and> prefix (js ''http'') href
             \<and> r = \<lparr>title = trim (h3_text c), url = trim href,
                     snippet = trim (snippet_text c)\<rparr>))"
  using assms by (auto simp: push_result_def split: option.splits if_splits)

lemma foldl_push_result_cases:
  assumes "r \<in> set (foldl push_result acc cs)"
  shows "r \<in> set acc \<or>
         (\<exists>c\<in>set cs. h3_text c \<noteq> [] \<and> snippet_text c \<noteq> [] \<and>
          (\<exists>href. first_a_href c = Some href \<and> href \<noteq> [] \<and> prefix (js ''http'') href
             \<and> r = \<lparr>title = trim (h3_text c), url = trim href,
                     snippet = trim (snippet_text c)\<rparr>))"
  using assms
proof (induction cs arbitrary: acc)
  case Nil
  then show ?case by simp
next
  case (Cons c cs)
  from Cons.prems have "r \<in> set (foldl push_result (push_result acc c) cs)" by simp
  from Cons.IH[OF this] show ?case
  proof
    assume "r \<in> set (push_result acc c)"
    from push_result_cases[OF this] show ?thesis by auto
  next
    assume "\<exists>c\<in>set cs. h3_text c \<noteq> [] \<and> snippet_text c \<noteq> [] \<and>
          (\<exists>href. first_a_href c = Some href \<and> href \<noteq> [] \<and> prefix (js ''http'') href
             \<and> r = \<lparr>title = trim (h3_text c), url = trim href,
                     snippet = trim (snippet_text c)\<rparr>)"
    then show ?thesis by auto
  qed
qed

lemma searchGoogle_cases:
  assumes "r \<in> set (fst (searchGoogle e t q))"
  shows "\<exists>enc d. encodeURIComponent e (ToString q) = Some enc
           \<and> fetch e t (js ''https://www.google.com/search?q='' @ enc @ js ''&num=16'') = Response True d
           \<and> (\<exists>c\<in>set (div_g d). h3_text c \<noteq> [] \<and> snippet_text c \<noteq> [] \<and>
          (\<exists>href. first_a_href c = Some href \<and> href \<noteq> [] \<and> prefix (js ''http'') href
             \<and> r = \<lparr>title = trim (h3_text c), url = trim href,
                     snippet = trim (snippet_text c)\<rparr>))"
proof (cases "encodeURIComponent e (ToString q)")
  case None
  with assms show ?thesis by (simp add: searchGoogle_def)
next
  case (Some enc)
  show ?thesis
  proof (cases "fetch e t (js ''https://www.google.com/search?q='' @ enc @ js ''&num=16'')")
    case FetchRejected
    with Some assms show ?thesis by (simp add: searchGoogle_def)
  next
    case (Response ok d)
    with Some assms have ok: "ok" and "r \<in> set (take 8 (foldl push_result [] (div_g d)))"
      by (auto simp: searchGoogle_def split: if_splits)
    then have "r \<in> set (foldl push_result [] (div_g d))" by (auto dest: in_set_takeD)
    from foldl_push_result_cases[OF this] Some Response ok show ?thesis by simp
  qed
qed

lemma searchGoogle_length: "length (fst (searchGoogle e t q)) \<le> 8"
  by (simp add: searchGoogle_def split: option.splits fetched.splits)

lemma searchGoogle_url:
  assumes "r \<in> set (fst (searchGoogle e t q))"
  shows "prefix (js ''http'') (url r) \<and> trim (url r) = url r"
proof -
  from searchGoogle_cases[OF assms] obtain href where
    "prefix (js ''http'') href" "url r = trim href" by auto
  moreover have "js ''http'' \<noteq> []" by (simp add: js_def)
  ultimately show ?thesis using trim_prefix[OF _ _ http_not_ws] by (simp add: trim_trim)
qed

text \<open>
  C3, as amended. \<open>searchGoogle\<close> returns at most 8 entries. Every returned entry is the
  trimmed form of a container of the fetched page whose heading text, link and snippet
  text are non-empty before trimming and whose link starts with \<open>http\<close>; its url is
  trimmed and starts with \<open>http\<close>, its title and snippet are trimmed. The guard tests the
  untrimmed strings, so a title or snippet of white space only is accepted and returned
  empty.
\<close>

theorem searchGoogle_results:
  "length (fst (searchGoogle e t q)) \<le> 8 \<and>
   (\<forall>r\<in>set (fst (searchGoogle e t q)).
      prefix (js ''http'') (url r) \<and> trim (url r) = url r
      \<and> trim (title r) = title r \<and> trim (snippet r) = snippet r
      \<and> (\<exists>enc d. encodeURIComponent e (ToString q) = Some enc
           \<and> fetch e t (js ''https://www.google.com/search?q='' @ enc @ js ''&num=16'') = Response True d
           \<and> (\<exists>c\<in>set (div_g d). h3_text c \<noteq> [] \<and> snippet_text c \<noteq> [] \<and>
          (\<exists>href. first_a_href c = Some href \<and> href \<noteq> [] \<and> prefix (js ''http'') href
             \<and> r = \<lparr>title = trim (h3_text c), url = trim href,
                     snippet = trim (snippet_text c)\<rparr>))))"
proof (intro conjI ballI)
  show "length (fst (searchGoogle e t q)) \<le> 8" by (rule searchGoogle_length)
next
  fix r assume r: "r \<in> set (fst (searchGoogle e t q))"
  from searchGoogle_url[OF r] show "prefix (js ''http'') (url r)" "trim (url r) = url r" by simp_all
  from searchGoogle_cases[OF r] show "trim (title r) = title r" "trim (snippet r) = snippet r"
    by (auto simp: trim_trim)
  from searchGoogle_cases[OF r] show "\<exists>enc d. encodeURIComponent e (ToString q) = Some enc
           \<and> fetch e t (js ''https://www.google.com/search?q='' @ enc @ js ''&num=16'') = Response True d
           \<and> (\<exists>c\<in>set (div_g d). h3_text c \<noteq> [] \<and> snippet_text c \<noteq> [] \<and>
          (\<exists>href. first_a_href c = Some href \<and> href \<noteq> [] \<and> prefix (js ''http'') href
             \<and> r = \<lparr>title = trim (h3_text c), url = trim href,
                     snippet = trim (snippet_text c)\<rparr>))" .
qed

lemma two_results_eval:
  "fst (searchGoogle two_results_web 0 (Str (js ''boiling point of water''))) =
     [\<lparr>title = js ''Boiling point'', url = js ''http://a.example/'',
       snippet = js ''Water boils at 100 degrees.''\<rparr>]"
  by (simp add: searchGoogle_def two_results_web_def silent_def results_page_def push_result_def
        trim_def js_def isWhiteSpace_def)

theorem searchGoogle_results_witness:
  "fst (searchGoogle two_results_web 0 (Str (js ''boiling point of water''))) =
     [\<lparr>title = js ''Boiling point'', url = js ''http://a.example/'',
       snippet = js ''Water boils at 100 degrees.''\<rparr>]
   \<and> length (fst (searchGoogle two_results_web 0 (Str (js ''boiling point of water'')))) \<le> 8
   \<and> prefix (js ''http'') (js ''http://a.example/'')
   \<and> trim (js ''http://a.example/'') = js ''http://a.example/''"
  using searchGoogle_results[of two_results_web 0 "Str (js ''boiling point of water'')"]
        two_results_eval
  by simp

text \<open>
  C3 as stated fails: a container whose heading is a single space passes the guard, and
  the entry returned for it has an empty title.
\<close>

theorem searchGoogle_blank_title:
  "map (\<lambda>r. trim (title r)) (fst (searchGoogle blank_title_web 0 (Str (js ''boiling point of water'')))) = [[]]"
  by (simp add: searchGoogle_def blank_title_web_def silent_def results_page_def push_result_def
        trim_def js_def isWhiteSpace_def sp_def)

section \<open>Content extraction: the selector loop\<close>

lemma try_selectors_find:
  "try_selectors d selectors =
     (case find (\<lambda>selector. matched d selector \<noteq> []) selectors of
        None \<Rightarrow> []
      | Some selector \<Rightarrow> trim (concat (matched d selector)))"
  by (induction selectors) (auto simp: Let_def)

text \<open>
  C5, as amended. The first selector of the priority list that matches at least one
  element, with or without text, ends the loop, and the content is the trimmed text of the
  elements it matches. The paragraph fallback (the trimmed paragraph texts longer than 50
  code units, joined by two line feeds) is used exactly when no selector matches an element
  or the text of the first matching selector is empty once trimmed; later selectors are
  not tried.
\<close>

theorem page_content_selection:
  "page_content d =
     (case find (\<lambda>selector. matched d selector \<noteq> []) contentSelectors of
        None \<Rightarrow> join [nl, nl] (filter (\<lambda>text. length text > 50) (map trim (p_texts d)))
      | Some selector \<Rightarrow>
          (if trim (concat (matched d selector)) = []
           then join [nl, nl] (filter (\<lambda>text. length text > 50) (map trim (p_texts d)))
           else trim (concat (matched d selector))))"
  by (simp add: page_content_def paragraphs_def try_selectors_find Let_def split: option.splits)

theorem page_content_selection_witness:
  "page_content main_page = js ''Water boils   at 100 C'' @ [nl, nl] @ js '' at sea level.''"
  using page_content_selection[of main_page]
  by (simp add: main_page_def contentSelectors_def trim_def js_def isWhiteSpace_def nl_def)

text \<open>
  C5 as stated fails: \<open>main\<close> matches an element with text, but the empty \<open>article\<close>
  element ends the loop first and the content is the paragraph.
\<close>

theorem page_content_empty_article:
  "matched empty_article_page ''main'' = [js ''Water boils at 100 C at sea level.'']
   \<and> page_content empty_article_page
       = js ''The kettle was invented long before anyone measured a boiling point.''"
  by (simp add: page_content_def paragraphs_def empty_article_page_def contentSelectors_def
        trim_def js_def isWhiteSpace_def)

section \<open>Content extraction: the clean-up\<close>

lemma collapse_ws_only_sp: "c \<in> set (collapse_ws s) \<Longrightarrow> isWhiteSpace c \<Longrightarrow> c = sp"
  by (induction s rule: collapse_ws.induct) (auto split: if_splits)

lemma collapse_ws_hd:
  "collapse_ws s \<noteq> [] \<Longrightarrow> hd (collapse_ws s) = sp \<Longrightarrow> s \<noteq> [] \<and> isWhiteSpace (hd s)"
  by (cases s) (auto simp: sp_ws split: if_splits)

lemma no_double_space_Cons:
  "no_double_space (a # s) \<longleftrightarrow> (s = [] \<or> \<not> (a = sp \<and> hd s = sp)) \<and> no_double_space s"
  by (cases s) auto

lemma collapse_ws_no_double: "no_double_space (collapse_ws s)"
proof (induction s rule: collapse_ws.induct)
  case 1
  then show ?case by simp
next
  case (2 c cs)
  show ?case
  proof (cases "isWhiteSpace c")
    case True
    let ?r = "dropWhile isWhiteSpace cs"
    have "collapse_ws ?r = [] \<or> hd (collapse_ws ?r) \<noteq> sp"
    proof (cases "collapse_ws ?r = []")
      case False
      have "?r = [] \<or> \<not> isWhiteSpace (hd ?r)" by (metis hd_dropWhile)
      with False show ?thesis using collapse_ws_hd[of ?r] by auto
    qed simp
    with True 2 show ?thesis by (simp add: no_double_space_Cons)
  next
    case False
    then have "c \<noteq> sp" using sp_ws by auto
    with False 2 show ?thesis by (simp add: no_double_space_Cons)
  qed
qed

lemma no_double_space_drop: "no_double_space s \<Longrightarrow> no_double_space (drop n s)"
proof (induction n arbitrary: s)
  case 0 then show ?case by simp
next
  case (Suc n)
  then show ?case by (cases s) (auto simp: no_double_space_Cons)
qed

lemma no_double_space_take: "no_double_space s \<Longrightarrow> no_double_space (take n s)"
proof (induction s arbitrary: n)
  case Nil then show ?case by simp
next
  case (Cons a s)
  show ?case
  proof (cases n)
    case 0 then show ?thesis by simp
  next
    case (Suc m)
    from Cons.prems have nd: "no_double_space s" and h: "s = [] \<or> \<not> (a = sp \<and> hd s = sp)"
      by (simp_all add: no_double_space_Cons)
    have "take m s = [] \<or> hd (take m s) = hd s" by (cases s; cases m) auto
    with h Cons.IH[OF nd, of m] Suc show ?thesis
      by (auto simp: no_double_space_Cons)
  qed
qed

lemma no_double_space_trim: "no_double_space s \<Longrightarrow> no_double_space (trim s)"
proof -
  assume nd: "no_double_space s"
  obtain i j where "trim s = take i (drop j s)" using trim_eq_take_drop by blast
  then show ?thesis using nd by (simp add: no_double_space_take no_double_space_drop)
qed

lemma set_trim: "set (trim s) \<subseteq> set s"
proof -
  obtain i j where "trim s = take i (drop j s)" using trim_eq_take_drop by blast
  then show ?thesis by (metis set_take_subset set_drop_subset subset_trans)
qed

lemma collapse_blank_id: "nl \<notin> set s \<Longrightarrow> collapse_blank s = s"
  by (induction s) auto

lemma collapse_ws_no_nl: "nl \<notin> set (collapse_ws s)"
  using collapse_ws_only_sp[of nl s] nl_ws nl_neq_sp by auto

lemma collapse_blank_collapse_ws: "collapse_blank (collapse_ws s) = collapse_ws s"
  by (rule collapse_blank_id) (rule collapse_ws_no_nl)

lemma clean_up_eq: "clean_up s = take 4000 (trim (collapse_ws s))"
  by (simp add: clean_up_def collapse_blank_collapse_ws)

lemma clean_up_only_sp: "c \<in> set (clean_up s) \<Longrightarrow> isWhiteSpace c \<Longrightarrow> c = sp"
proof -
  assume c: "c \<in> set (clean_up s)" and w: "isWhiteSpace c"
  from c have "c \<in> set (trim (collapse_ws s))" unfolding clean_up_eq by (rule in_set_takeD)
  then have "c \<in> set (collapse_ws s)" using set_trim by blast
  then show ?thesis using w by (rule collapse_ws_only_sp)
qed

lemma clean_up_no_nl: "nl \<notin> set (clean_up s)"
  using clean_up_only_sp[of nl s] nl_ws nl_neq_sp by auto

lemma clean_up_length: "length (clean_up s) \<le> 4000"
  by (simp add: clean_up_def)

lemma clean_up_no_double: "no_double_space (clean_up s)"
  unfolding clean_up_eq
  by (intro no_double_space_take no_double_space_trim collapse_ws_no_double)

lemma clean_up_no_lead: "dropWhile isWhiteSpace (clean_up s) = clean_up s"
proof (cases "trim (collapse_ws s)")
  case Nil
  then show ?thesis by (simp add: clean_up_eq)
next
  case (Cons a r)
  have "dropWhile isWhiteSpace (a # r) = a # r"
    using trim_no_lead[of "collapse_ws s"] unfolding Cons .
  then have "\<not> isWhiteSpace a" by (metis hd_dropWhile list.sel(1) list.distinct(1))
  with Cons show ?thesis by (simp add: clean_up_eq)
qed

lemma clean_up_trimmed_if_short: "length (clean_up s) < 4000 \<Longrightarrow> trim (clean_up s) = clean_up s"
proof -
  assume "length (clean_up s) < 4000"
  then have "clean_up s = trim (collapse_ws s)" unfolding clean_up_eq by (simp add: min_def split: if_splits)
  then show ?thesis by (simp add: trim_trim)
qed

lemma split_nl_no_nl: "nl \<notin> set s \<Longrightarrow> split_nl s = [s]"
  by (induction s) auto

lemma clean_up_no_blank: "\<not> adjacent_blank (split_nl (clean_up s))"
  by (simp add: split_nl_no_nl clean_up_no_nl)

lemma extractContent_cases:
  "fst (extractContent e t a) = [] \<or> (\<exists>d. fetch e t a = Response True d \<and> fst (extractContent e t a) = clean_up (page_content d))"
  by (auto simp: extractContent_def split: fetched.splits)

lemma extractContent_clock: "snd (extractContent e t a) = Suc t"
  by (simp add: extractContent_def split: fetched.splits)

lemma main_page_clean:
  "fst (extractContent main_web 0 (js ''http://a.example/''))
     = js ''Water boils at 100 C at sea level.''"
  by (simp add: extractContent_def clean_up_eq page_content_def main_page_def contentSelectors_def 
       main_web_def silent_def trim_def js_def isWhiteSpace_def nl_def sp_def)

text \<open>
  C6, as amended. The extracted text has at most 4000 code units, no leading white space,
  no run of two or more spaces and no two consecutive blank lines; it is trimmed whenever
  it is shorter than 4000 code units. The text is trimmed before it is cut, so a text cut
  at 4000 code units can end with a space.
\<close>

theorem extractContent_shape:
  "length (fst (extractContent e t a)) \<le> 4000
   \<and> dropWhile isWhiteSpace (fst (extractContent e t a)) = fst (extractContent e t a)
   \<and> (length (fst (extractContent e t a)) < 4000 \<longrightarrow>
        trim (fst (extractContent e t a)) = fst (extractContent e t a))
   \<and> no_double_space (fst (extractContent e t a))
   \<and> \<not> adjacent_blank (split_nl (fst (extractContent e t a)))"
  using extractContent_cases[of e t a]
proof
  assume "fst (extractContent e t a) = []"
  then show ?thesis by (simp add: trim_def)
next
  assume "\<exists>d. fetch e t a = Response True d \<and> fst (extractContent e t a) = clean_up (page_content d)"
  then obtain d where "fst (extractContent e t a) = clean_up (page_content d)" by blast
  then show ?thesis
    using clean_up_length clean_up_no_lead clean_up_trimmed_if_short clean_up_no_double clean_up_no_blank
    by simp
qed

theorem extractContent_shape_witness:
  "fst (extractContent main_web 0 (js ''http://a.example/''))
     = js ''Water boils at 100 C at sea level.''
   \<and> length (js ''Water boils at 100 C at sea level.'') < 4000
   \<and> trim (js ''Water boils at 100 C at sea level.'') = js ''Water boils at 100 C at sea level.''
   \<and> no_double_space (js ''Water boils at 100 C at sea level.'')"
proof -
  have len: "length (js ''Water boils at 100 C at sea level.'') < 4000"
    by (simp add: js_def)
  note shape = extractContent_shape[of main_web 0
      "js ''http://a.example/''", unfolded main_page_clean]
  from shape len show ?thesis unfolding main_page_clean by blast
qed

lemma collapse_ws_append_plain:
  "\<forall>c\<in>set xs. \<not> isWhiteSpace c \<Longrightarrow> collapse_ws (xs @ ys) = xs @ collapse_ws ys"
  by (induction xs) auto

lemma long_page_content: "page_content long_page = replicate 3999 0x78 @ [sp, 0x79]"
  by (simp add: page_content_def long_page_def contentSelectors_def trim_def isWhiteSpace_def sp_def
        dropWhile_append)

lemma long_page_clean: "clean_up (replicate 3999 0x78 @ [sp, 0x79]) = replicate 3999 0x78 @ [sp]"
proof -
  have "collapse_ws (replicate 3999 0x78 @ [sp, 0x79]) = replicate 3999 0x78 @ [sp, 0x79]"
    by (subst collapse_ws_append_plain) (simp_all add: isWhiteSpace_def sp_def)
  moreover have "trim (replicate 3999 0x78 @ [sp, 0x79]) = replicate 3999 0x78 @ [sp, 0x79]"
    by (simp add: trim_def isWhiteSpace_def sp_def dropWhile_append)
  ultimately show ?thesis by (simp add: clean_up_eq)
qed

text \<open>
  C6 as stated fails: the 4001 code units \<open>x...x y\<close> with a space at index 3999 are
  clean and trimmed, the cut keeps the first 4000, and the result ends with the space.
\<close>

theorem extractContent_cut_after_space:
  "fst (extractContent long_web 0 (js ''http://a.example/''))
     = replicate 3999 0x78 @ [sp]
   \<and> trim (replicate 3999 0x78 @ [sp]) = replicate 3999 0x78"
  by (simp add: extractContent_def long_page_content long_page_clean long_web_def silent_def)
     (simp add: trim_def isWhiteSpace_def sp_def)

text \<open>
  C9. The extracted text never contains a line feed: the only white space left by the first
  replacement is the space, so the second replacement finds nothing to replace.
\<close>

theorem extractContent_single_line:
  "nl \<notin> set (fst (extractContent e t a))
   \<and> (\<forall>c\<in>set (fst (extractContent e t a)). isWhiteSpace c \<longrightarrow> c = sp)
   \<and> collapse_blank (collapse_ws s) = collapse_ws s"
  using extractContent_cases[of e t a] clean_up_no_nl clean_up_only_sp collapse_blank_collapse_ws
  by auto

theorem extractContent_single_line_witness:
  "fst (extractContent main_web 0 (js ''http://a.example/''))
     = js ''Water boils at 100 C at sea level.''
   \<and> nl \<notin> set (js ''Water boils at 100 C at sea level.'')"
proof -
  note line = extractContent_single_line[of main_web 0
      "js ''http://a.example/''", unfolded main_page_clean]
  from line show ?thesis unfolding main_page_clean by blast
qed

section \<open>Synthesis: the citation list\<close>

lemma subseq_in_set: "subseq xs ys \<Longrightarrow> x \<in> set xs \<Longrightarrow> x \<in> set ys"
  by (erule list_emb_set) auto

lemma subseq_keeps_distinct: "subseq xs ys \<Longrightarrow> distinct ys \<Longrightarrow> distinct xs"
  by (auto simp: subseq_conv_nths)

lemma process_sources_clock:
  "snd (process_sources e t sources texts cited) = t + length sources"
  by (induction sources arbitrary: t texts cited)
     (simp_all add: split_beta extractContent_clock)

lemma upt_filter_shift:
  "map f (filter P [0..<Suc n]) =
     (if P 0 then [f 0] else []) @ map (\<lambda>k. f (Suc k)) (filter (\<lambda>k. P (Suc k)) [0..<n])"
proof -
  have "[0..<Suc n] = 0 # map Suc [0..<n]"
    by (simp add: upt_conv_Cons map_Suc_upt del: upt_Suc)
  then show ?thesis by (simp add: filter_map comp_def del: upt_Suc)
qed

lemma process_sources_cited:
  "snd (fst (process_sources e t sources texts cited)) =
     cited @ map (\<lambda>k. url (sources ! k))
               (filter (\<lambda>k. fst (extractContent e (t + k) (url (sources ! k))) \<noteq> [])
                  [0..<length sources])"
proof (induction sources arbitrary: t texts cited)
  case Nil
  then show ?case by simp
next
  case (Cons s rest)
  show ?case
    by (simp add: split_beta extractContent_clock Cons.IH
          upt_filter_shift[where n = "length rest"] del: upt_Suc)
qed

lemma upt_concat_shift:
  "concat (map f [0..<Suc n]) = f 0 @ concat (map (\<lambda>k. f (Suc k)) [0..<n])"
proof -
  have "[0..<Suc n] = 0 # map Suc [0..<n]"
    by (simp add: upt_conv_Cons map_Suc_upt del: upt_Suc)
  then show ?thesis by (simp add: comp_def del: upt_Suc)
qed

lemma process_sources_texts:
  "fst (fst (process_sources e t sources texts cited)) =
     texts @ concat (map (\<lambda>k.
         (if fst (extractContent e (t + k) (url (sources ! k))) \<noteq> []
          then [js ''Content from '' @ url (sources ! k) @ js '':'' @ [nl]
                  @ fst (extractContent e (t + k) (url (sources ! k)))]
          else [])
         @ (if snippet (sources ! k) \<noteq> [] then [js ''Snippet: '' @ snippet (sources ! k)]
            else []))
       [0..<length sources])"
proof (induction sources arbitrary: t texts cited)
  case Nil
  then show ?case by simp
next
  case (Cons s rest)
  show ?case
    by (simp add: split_beta extractContent_clock Cons.IH
          upt_concat_shift[where n = "length rest"] del: upt_Suc cong: if_cong)
qed

lemma synthesizeInformation_cases:
  "fst (synthesizeInformation e t q sources) =
     (case complete e (t + length sources)
             (synthesis_messages q (fst (fst (process_sources e t sources [] [])))) of
        Rejected \<Rightarrow> (js ''Error synthesizing information.'', [])
      | Completion None \<Rightarrow>
          (js ''No content available'', snd (fst (process_sources e t sources [] [])))
      | Completion (Some text) \<Rightarrow> (text, snd (fst (process_sources e t sources [] []))))"
  using process_sources_clock[of e t sources "[]" "[]"]
  by (simp add: synthesizeInformation_def split_beta split: completion.splits option.splits)

lemma cited_subseq:
  "subseq (map (\<lambda>k. url (sources ! k)) (filter P [0..<length sources])) (map url sources)"
proof -
  have "subseq (map (\<lambda>k. url (sources ! k)) (filter P [0..<length sources]))
               (map (\<lambda>k. url (sources ! k)) [0..<length sources])"
    by (rule subseq_map) simp
  moreover have "map (\<lambda>k. url (sources ! k)) [0..<length sources] = map url sources"
    by (rule nth_equalityI) simp_all
  ultimately show ?thesis by simp
qed

lemma synthesizeInformation_citations:
  "snd (fst (synthesizeInformation e t q sources)) = []
   \<or> snd (fst (synthesizeInformation e t q sources)) =
       map (\<lambda>k. url (sources ! k))
         (filter (\<lambda>k. fst (extractContent e (t + k) (url (sources ! k))) \<noteq> [])
            [0..<length sources])"
  by (simp add: synthesizeInformation_cases process_sources_cited
        split: completion.splits option.splits)

lemma synthesizeInformation_subseq:
  "subseq (snd (fst (synthesizeInformation e t q sources))) (map url sources)"
  using synthesizeInformation_citations[of e t q sources] cited_subseq[of sources]
  by auto

lemma main_web_complete: "complete main_web t ms = Rejected"
  by (simp add: main_web_def silent_def)

lemma one_site_complete:
  "complete one_site_web t ms = Completion (Some (js ''Water boils at 100 C.''))"
  by (simp add: one_site_web_def)

lemma boiling_complete:
  "0 < t \<Longrightarrow> complete boiling_web t ms = Completion (Some (js ''Water boils at 100 C.''))"
  by (simp add: boiling_web_def)

lemma main_web_extract:
  "extractContent main_web t (js ''http://a.example/'')
     = (js ''Water boils at 100 C at sea level.'', Suc t)"
proof -
  have "extractContent main_web t (js ''http://a.example/'')
          = (fst (extractContent main_web 0 (js ''http://a.example/'')), Suc t)"
    by (simp add: extractContent_def main_web_def silent_def)
  then show ?thesis by (simp only: main_page_clean)
qed

lemma js_nonempty: "js ''Water boils at 100 C at sea level.'' \<noteq> []"
  "js ''Water boils at 100 degrees.'' \<noteq> []" "js ''All about kettles.'' \<noteq> []"
  by (simp_all add: js_def)

lemma main_web_process:
  "snd (fst (process_sources main_web 0 [source_a] [] [])) = [js ''http://a.example/'']"
  by (simp add: source_a_def main_web_extract js_nonempty)

lemma one_site_extract_a:
  "extractContent one_site_web t (js ''http://a.example/'')
     = (js ''Water boils at 100 C at sea level.'', Suc t)"
proof -
  have "extractContent one_site_web t (js ''http://a.example/'')
          = (fst (extractContent main_web 0 (js ''http://a.example/'')), Suc t)"
    by (simp add: extractContent_def one_site_web_def main_web_def silent_def)
  then show ?thesis by (simp only: main_page_clean)
qed

lemma one_site_extract_b:
  "extractContent one_site_web t (js ''http://b.example/'') = ([], Suc t)"
  by (simp add: extractContent_def one_site_web_def js_def)





lemma null_web_complete: "complete null_web t ms = Completion None"
  by (simp add: null_web_def)

lemma null_web_extract:
  "extractContent null_web t (js ''http://a.example/'')
     = (js ''Water boils at 100 C at sea level.'', Suc t)"
proof -
  have "extractContent null_web t (js ''http://a.example/'')
          = extractContent main_web t (js ''http://a.example/'')"
    by (simp add: extractContent_def null_web_def split: fetched.splits)
  then show ?thesis by (simp only: main_web_extract)
qed

lemma empty_answer_complete: "complete empty_answer_web t ms = Completion (Some [])"
  by (simp add: empty_answer_web_def)

lemma empty_answer_extract:
  "extractContent empty_answer_web t (js ''http://a.example/'')
     = (js ''Water boils at 100 C at sea level.'', Suc t)"
proof -
  have "extractContent empty_answer_web t (js ''http://a.example/'')
          = extractContent main_web t (js ''http://a.example/'')"
    by (simp add: extractContent_def empty_answer_web_def split: fetched.splits)
  then show ?thesis by (simp only: main_web_extract)
qed

text \<open>
  C8, as amended. When the completion call of the synthesis fails, \<open>synthesizeInformation\<close>
  returns the fixed error message with an empty citation list. When the call succeeds with
  \<open>null\<close> content, it returns the fixed fallback string with the accumulated citation
  list: the urls, in order, of the sources whose extraction gave non-empty content. When
  the call succeeds with a string, that string is the answer, also when it is empty, with
  the same citation list. The function has a result on every path: the failure is a
  branch, not an exception. (The completion is called with the blocks of all sources: for
  the source at index \<open>k\<close>, the content block when its extraction is non-empty, then the
  snippet block when its snippet is non-empty.)
\<close>

theorem synthesizeInformation_degrades:
  "(complete e (t + length sources)
      (synthesis_messages q (concat (map (\<lambda>k.
         (if fst (extractContent e (t + k) (url (sources ! k))) \<noteq> []
          then [js ''Content from '' @ url (sources ! k) @ js '':'' @ [nl]
                  @ fst (extractContent e (t + k) (url (sources ! k)))]
          else [])
         @ (if snippet (sources ! k) \<noteq> [] then [js ''Snippet: '' @ snippet (sources ! k)]
            else []))
       [0..<length sources]))) = Rejected
    \<longrightarrow> fst (synthesizeInformation e t q sources) = (js ''Error synthesizing information.'', []))
   \<and> (complete e (t + length sources)
      (synthesis_messages q (concat (map (\<lambda>k.
         (if fst (extractContent e (t + k) (url (sources ! k))) \<noteq> []
          then [js ''Content from '' @ url (sources ! k) @ js '':'' @ [nl]
                  @ fst (extractContent e (t + k) (url (sources ! k)))]
          else [])
         @ (if snippet (sources ! k) \<noteq> [] then [js ''Snippet: '' @ snippet (sources ! k)]
            else []))
       [0..<length sources]))) = Completion None
    \<longrightarrow> fst (synthesizeInformation e t q sources)
          = (js ''No content available'',
             map (\<lambda>k. url (sources ! k))
               (filter (\<lambda>k. fst (extractContent e (t + k) (url (sources ! k))) \<noteq> [])
                  [0..<length sources])))
   \<and> (\<forall>text. complete e (t + length sources)
      (synthesis_messages q (concat (map (\<lambda>k.
         (if fst (extractContent e (t + k) (url (sources ! k))) \<noteq> []
          then [js ''Content from '' @ url (sources ! k) @ js '':'' @ [nl]
                  @ fst (extractContent e (t + k) (url (sources ! k)))]
          else [])
         @ (if snippet (sources ! k) \<noteq> [] then [js ''Snippet: '' @ snippet (sources ! k)]
            else []))
       [0..<length sources]))) = Completion (Some text)
    \<longrightarrow> fst (synthesizeInformation e t q sources)
          = (text,
             map (\<lambda>k. url (sources ! k))
               (filter (\<lambda>k. fst (extractContent e (t + k) (url (sources ! k))) \<noteq> [])
                  [0..<length sources])))"
  using process_sources_texts[of e t sources "[]" "[]"] process_sources_cited[of e t sources "[]" "[]"]
  by (simp add: synthesizeInformation_cases)

theorem synthesizeInformation_degrades_witness:
  "fst (synthesizeInformation main_web 0 boiling_question [source_a])
     = (js ''Error synthesizing information.'', [])
   \<and> fst (synthesizeInformation null_web 0 boiling_question [source_a])
     = (js ''No content available'', [js ''http://a.example/''])
   \<and> fst (synthesizeInformation one_site_web 0 boiling_question [source_a, source_b])
     = (js ''Water boils at 100 C.'', [js ''http://a.example/''])"
proof -
  note rejected_case = synthesizeInformation_degrades[of main_web 0 "[source_a]" boiling_question]
  note null_case = synthesizeInformation_degrades[of null_web 0 "[source_a]" boiling_question]
  note text_case = synthesizeInformation_degrades[of one_site_web 0 "[source_a, source_b]" boiling_question]
  have 1: "fst (synthesizeInformation main_web 0 boiling_question [source_a])
     = (js ''Error synthesizing information.'', [])"
    using rejected_case main_web_complete by blast
  have "fst (synthesizeInformation null_web 0 boiling_question [source_a])
     = (js ''No content available'',
        map (\<lambda>k. url ([source_a] ! k))
          (filter (\<lambda>k. fst (extractContent null_web (0 + k) (url ([source_a] ! k))) \<noteq> [])
             [0..<length [source_a]]))"
    using null_case null_web_complete by blast
  then have 2: "fst (synthesizeInformation null_web 0 boiling_question [source_a])
     = (js ''No content available'', [js ''http://a.example/''])"
    by (simp add: source_a_def null_web_extract js_nonempty)
  have "fst (synthesizeInformation one_site_web 0 boiling_question [source_a, source_b])
     = (js ''Water boils at 100 C.'',
        map (\<lambda>k. url ([source_a, source_b] ! k))
          (filter (\<lambda>k. fst (extractContent one_site_web (0 + k) (url ([source_a, source_b] ! k))) \<noteq> [])
             [0..<length [source_a, source_b]]))"
    using text_case one_site_complete by blast
  then have 3: "fst (synthesizeInformation one_site_web 0 boiling_question [source_a, source_b])
     = (js ''Water boils at 100 C.'', [js ''http://a.example/''])"
    by (simp add: source_a_def source_b_def one_site_extract_a one_site_extract_b js_nonempty
          upt_conv_Cons)
  from 1 2 3 show ?thesis by blast
qed

text \<open>
  C8 as stated fails: a completion whose content is the empty string has no content, and
  the answer is that empty string, not the fallback string.
\<close>

theorem synthesizeInformation_empty_answer:
  "fst (synthesizeInformation empty_answer_web 0 boiling_question [source_a])
     = ([], [js ''http://a.example/''])"
  by (simp add: synthesizeInformation_cases)
     (simp add: source_a_def empty_answer_extract empty_answer_complete js_nonempty)

section \<open>The endpoint: status and citations\<close>

lemma POST_JsonValue:
  "POST e (JsonValue q) =
     Json200 \<lparr>query = q,
       answer = fst (fst (synthesizeInformation e
                  (snd (search_all e 1 (fst (generateSearchQueries e 0 q)) [])) q
                  (fst (search_all e 1 (fst (generateSearchQueries e 0 q)) [])))),
       citations = snd (fst (synthesizeInformation e
                  (snd (search_all e 1 (fst (generateSearchQueries e 0 q)) [])) q
                  (fst (search_all e 1 (fst (generateSearchQueries e 0 q)) [])))),
       searchQueriesUsed = fst (generateSearchQueries e 0 q)\<rparr>"
  using generateSearchQueries_clock[of e 0 q]
  by (simp add: POST_def split_beta)

lemma search_all_sources:
  "r \<in> set (fst (search_all e t queries acc))
   \<Longrightarrow> r \<in> set acc \<or> (\<exists>t' q'. r \<in> set (fst (searchGoogle e t' q')))"
proof (induction queries arbitrary: t acc)
  case Nil
  then show ?case by simp
next
  case (Cons q rest)
  from Cons.prems
  have "r \<in> set (fst (search_all e (snd (searchGoogle e t q)) rest (acc @ fst (searchGoogle e t q))))"
    by (simp add: split_beta)
  from Cons.IH[OF this] show ?case by auto
qed

lemma boiling_search: "searchGoogle boiling_web t q = ([source_a], Suc t)"
  by (simp add: searchGoogle_def boiling_web_def boiling_page_def push_result_def source_a_def
        trim_def js_def isWhiteSpace_def)

lemma try_selectors_div_g: "try_selectors (d\<lparr>div_g := cs\<rparr>) selectors = try_selectors d selectors"
  by (induction selectors) (simp_all add: Let_def)

lemma boiling_extract:
  "extractContent boiling_web t (js ''http://a.example/'')
     = (js ''Water boils at 100 C at sea level.'', Suc t)"
proof -
  have "page_content boiling_page = page_content main_page"
    by (simp add: page_content_def paragraphs_def boiling_page_def try_selectors_div_g Let_def)
  then have "extractContent boiling_web t (js ''http://a.example/'')
          = (fst (extractContent main_web 0 (js ''http://a.example/'')), Suc t)"
    by (simp add: extractContent_def boiling_web_def main_web_def silent_def)
  then show ?thesis by (simp only: main_page_clean)
qed

lemma boiling_queries:
  "generateSearchQueries boiling_web 0 q
     = ([Str (js ''boiling point of water''), Str (js ''water sea level'')], 1)"
  by (simp add: generateSearchQueries_def boiling_web_def trim_def js_def isWhiteSpace_def nl_def)

text \<open>
  C4, as amended. The endpoint answers with status 500 and an \<open>error\<close> field exactly when
  the request body cannot be read: it is not JSON, or it is the JSON value \<open>null\<close>. A body
  without a \<open>query\<close> field is processed with \<open>query\<close> undefined and answered with status
  200. Nothing else is answered with status 500.
\<close>

theorem POST_failure:
  "(status (POST e body) = 500 \<longleftrightarrow> body = NotJson \<or> body = JsonNull)
   \<and> (status (POST e body) = 500 \<longrightarrow> POST e body = Json500 (js ''Failed to process search''))
   \<and> status (POST e (JsonValue Undefined)) = 200"
  by (cases body) (simp_all add: POST_JsonValue, simp_all add: POST_def)

theorem POST_failure_witness:
  "status (POST silent NotJson) = 500
   \<and> POST silent NotJson = Json500 (js ''Failed to process search'')
   \<and> status (POST silent JsonNull) = 500
   \<and> status (POST silent (JsonValue Undefined)) = 200"
proof -
  note not_json = POST_failure[of silent NotJson]
  note json_null = POST_failure[of silent JsonNull]
  from not_json have 1: "status (POST silent NotJson) = 500" by blast
  with not_json have 2: "POST silent NotJson = Json500 (js ''Failed to process search'')" by blast
  from json_null have 3: "status (POST silent JsonNull) = 500" by blast
  from not_json have 4: "status (POST silent (JsonValue Undefined)) = 200" by blast
  from 1 2 3 4 show ?thesis by blast
qed

text \<open>
  C4 as stated fails: for a body without a \<open>query\<close> field, on a web where every outbound
  call fails, the answer has status 200.
\<close>

theorem POST_missing_query:
  "POST silent (JsonValue Undefined) =
     Json200 \<lparr>query = Undefined, answer = js ''Error synthesizing information.'',
       citations = [], searchQueriesUsed = [Undefined]\<rparr>
   \<and> status (POST silent (JsonValue Undefined)) = 200"
proof -
  have q: "generateSearchQueries silent 0 Undefined = ([Undefined], 1)"
    by (simp add: generateSearchQueries_def silent_def)
  have s: "\<And>t q. searchGoogle silent t q = ([], Suc t)"
    by (simp add: searchGoogle_def silent_def)
  show ?thesis
    by (simp add: POST_JsonValue q s synthesizeInformation_cases)
       (simp add: silent_def)
qed

lemma two_sites_search: "searchGoogle two_sites_web t q = ([source_a, source_b], Suc t)"
  by (simp add: searchGoogle_def two_sites_web_def two_sites_page_def push_result_def
        source_a_def source_b_def trim_def js_def isWhiteSpace_def)

lemma two_sites_extract:
  "extractContent two_sites_web t a = (js ''Water boils at 100 C at sea level.'', Suc t)"
proof -
  have "page_content two_sites_page = page_content main_page"
    by (simp add: page_content_def paragraphs_def two_sites_page_def try_selectors_div_g Let_def)
  then have "extractContent two_sites_web t a
          = (fst (extractContent main_web 0 (js ''http://a.example/'')), Suc t)"
    by (simp add: extractContent_def two_sites_web_def main_web_def silent_def)
  then show ?thesis by (simp only: main_page_clean)
qed

lemma two_sites_complete:
  "0 < t \<Longrightarrow> complete two_sites_web t ms = Completion (Some (js ''Water boils at 100 C.''))"
  by (simp add: two_sites_web_def)

lemma two_sites_POST:
  "POST two_sites_web (JsonValue boiling_question) =
     Json200 \<lparr>query = boiling_question, answer = js ''Water boils at 100 C.'',
       citations = [js ''http://a.example/'', js ''http://b.example/''],
       searchQueriesUsed = [boiling_question]\<rparr>"
proof -
  have q: "generateSearchQueries two_sites_web 0 boiling_question = ([boiling_question], 1)"
    by (simp add: generateSearchQueries_def two_sites_web_def)
  show ?thesis
    by (simp add: POST_JsonValue q two_sites_search synthesizeInformation_cases)
       (simp add: source_a_def source_b_def two_sites_extract js_nonempty two_sites_complete)
qed

lemma two_sites_distinct: "js ''http://a.example/'' \<noteq> js ''http://b.example/''"
  by (simp add: js_def)

text \<open>
  C1, as amended. The citations of a response are always a subsequence of the urls of the
  accumulated sources, in their order; they have no duplicate whenever the urls of the
  accumulated sources are pairwise distinct. Sources are not deduplicated, so a url that
  two searches surface can be fetched and cited twice.
\<close>

theorem POST_citations_distinct:
  assumes "POST e body = Json200 r"
  shows "subseq (citations r) (map url (fst (search_all e 1 (searchQueriesUsed r) [])))
         \<and> (distinct (map url (fst (search_all e 1 (searchQueriesUsed r) [])))
              \<longrightarrow> distinct (citations r))"
proof -
  from assms obtain q where body: "body = JsonValue q"
    by (cases body) (simp_all add: POST_def)
  let ?sources = "fst (search_all e 1 (fst (generateSearchQueries e 0 q)) [])"
  let ?t = "snd (search_all e 1 (fst (generateSearchQueries e 0 q)) [])"
  from assms body have c: "citations r = snd (fst (synthesizeInformation e ?t q ?sources))"
    and qs: "searchQueriesUsed r = fst (generateSearchQueries e 0 q)"
    by (auto simp: POST_JsonValue)
  have "subseq (citations r) (map url ?sources)"
    unfolding c by (rule synthesizeInformation_subseq)
  then show ?thesis unfolding qs by (auto dest: subseq_keeps_distinct)
qed

theorem POST_citations_distinct_witness:
  "POST two_sites_web (JsonValue boiling_question) =
     Json200 \<lparr>query = boiling_question, answer = js ''Water boils at 100 C.'',
       citations = [js ''http://a.example/'', js ''http://b.example/''],
       searchQueriesUsed = [boiling_question]\<rparr>
   \<and> map url (fst (search_all two_sites_web 1 [boiling_question] []))
       = [js ''http://a.example/'', js ''http://b.example/'']
   \<and> subseq [js ''http://a.example/'', js ''http://b.example/'']
         [js ''http://a.example/'', js ''http://b.example/'']
   \<and> distinct [js ''http://a.example/'', js ''http://b.example/'']"
proof -
  have m: "map url (fst (search_all two_sites_web 1 [boiling_question] []))
       = [js ''http://a.example/'', js ''http://b.example/'']"
    by (simp add: two_sites_search source_a_def source_b_def)
  note th = POST_citations_distinct[OF two_sites_POST]
  have s: "subseq [js ''http://a.example/'', js ''http://b.example/'']
         [js ''http://a.example/'', js ''http://b.example/'']"
    using th unfolding SearchResponse.select_convs m by blast
  have d: "distinct (map url (fst (search_all two_sites_web 1
             (searchQueriesUsed \<lparr>query = boiling_question, answer = js ''Water boils at 100 C.'',
       citations = [js ''http://a.example/'', js ''http://b.example/''],
       searchQueriesUsed = [boiling_question]\<rparr>) [])))"
    by (simp only: SearchResponse.select_convs m) (simp add: two_sites_distinct)
  with th have "distinct (citations \<lparr>query = boiling_question, answer = js ''Water boils at 100 C.'',
       citations = [js ''http://a.example/'', js ''http://b.example/''],
       searchQueriesUsed = [boiling_question]\<rparr>)"
    by blast
  then have "distinct [js ''http://a.example/'', js ''http://b.example/'']" by simp
  with two_sites_POST m s show ?thesis by blast
qed

text \<open>
  C1 as stated fails: the expansion gives two queries, both searches return the same
  source, both extractions succeed, and the url is cited twice.
\<close>

theorem POST_cites_twice:
  "POST boiling_web (JsonValue boiling_question) =
     Json200 \<lparr>query = boiling_question, answer = js ''Water boils at 100 C.'',
       citations = [js ''http://a.example/'', js ''http://a.example/''],
       searchQueriesUsed = [Str (js ''boiling point of water''), Str (js ''water sea level'')]\<rparr>"
  by (simp add: POST_JsonValue boiling_queries boiling_search synthesizeInformation_cases)
     (simp add: source_a_def boiling_extract js_nonempty boiling_complete)

text \<open>
  C10. Every url in the citations of a response starts with \<open>http\<close> and is its own
  trimmed form: it is the url of an entry that \<open>searchGoogle\<close> returned.
\<close>

theorem POST_citations_wellformed:
  assumes "POST e body = Json200 r"
  shows "\<forall>u\<in>set (citations r). prefix (js ''http'') u \<and> trim u = u"
proof
  fix u assume u: "u \<in> set (citations r)"
  from assms obtain q where body: "body = JsonValue q"
    by (cases body) (simp_all add: POST_def)
  let ?sources = "fst (search_all e 1 (fst (generateSearchQueries e 0 q)) [])"
  let ?t = "snd (search_all e 1 (fst (generateSearchQueries e 0 q)) [])"
  from assms body have "citations r = snd (fst (synthesizeInformation e ?t q ?sources))"
    by (auto simp: POST_JsonValue)
  with u have "u \<in> set (map url ?sources)"
    using synthesizeInformation_subseq[of e ?t q ?sources] by (auto dest: subseq_in_set) 
  then obtain s where s: "s \<in> set ?sources" and us: "u = url s" by auto
  from search_all_sources[OF s] obtain t' q' where "s \<in> set (fst (searchGoogle e t' q'))"
    by auto
  from searchGoogle_url[OF this] us show "prefix (js ''http'') u \<and> trim u = u" by simp
qed

theorem POST_citations_wellformed_witness:
  "POST boiling_web (JsonValue boiling_question) =
     Json200 \<lparr>query = boiling_question, answer = js ''Water boils at 100 C.'',
       citations = [js ''http://a.example/'', js ''http://a.example/''],
       searchQueriesUsed = [Str (js ''boiling point of water''), Str (js ''water sea level'')]\<rparr>
   \<and> prefix (js ''http'') (js ''http://a.example/'')
   \<and> trim (js ''http://a.example/'') = js ''http://a.example/''"
proof -
  have p: "POST boiling_web (JsonValue boiling_question) =
     Json200 \<lparr>query = boiling_question, answer = js ''Water boils at 100 C.'',
       citations = [js ''http://a.example/'', js ''http://a.example/''],
       searchQueriesUsed = [Str (js ''boiling point of water''), Str (js ''water sea level'')]\<rparr>"
    by (simp add: POST_JsonValue boiling_queries boiling_search synthesizeInformation_cases)
       (simp add: source_a_def boiling_extract js_nonempty boiling_complete)
  from POST_citations_wellformed[OF p] p show ?thesis by simp
qed

end
